theory Spec2Isabelle
  imports Main "HOL-Library.Sublist"
begin

section \<open>Strings\<close>

text \<open>
  A Go string is a sequence of bytes; it is modelled as a \<^typ>\<open>string\<close> (a list of
  8-bit characters), so \<open>len(value)\<close> is \<^const>\<open>length\<close> and \<open>value[i]\<close> is the byte
  at index \<open>i\<close>.  A \<open>for _, char := range value\<close> loop walks the decoded runes.
  Every rune test in the validator compares against ASCII characters only; a byte
  below 128 is always a rune of its own and every rune at or above 128 (the
  replacement rune of a malformed byte included) is made of bytes at or above 128
  only, so such a test holds for some (every) rune exactly when it holds for some
  (every) byte.  The loops below therefore run over the bytes.
\<close>

definition byte :: "char \<Rightarrow> nat" where
  "byte c = of_char c"

definition strings_HasPrefix :: "string \<Rightarrow> string \<Rightarrow> bool" where
  "strings_HasPrefix s pre = prefix pre s"

definition strings_Contains :: "string \<Rightarrow> string \<Rightarrow> bool" where
  "strings_Contains s substr = sublist substr s"

text \<open>
  \<open>strings.ToUpper\<close> on its ASCII path: the letters \<open>a\<close> to \<open>z\<close> move down by 32,
  every other byte stays.  (On text with bytes at or above 128 Go maps runes by the
  Unicode tables; the validator reaches \<open>extractLetterPart\<close> only with values that
  passed \<open>isValidCharForField\<close>, which holds ASCII characters only.)
\<close>

definition isLowerAZ :: "char \<Rightarrow> bool" where
  "isLowerAZ c = (byte CHR ''a'' \<le> byte c \<and> byte c \<le> byte CHR ''z'')"

definition toUpperByte :: "char \<Rightarrow> char" where
  "toUpperByte c = (if isLowerAZ c then char_of (byte c - 32) else c)"

definition strings_ToUpper :: "string \<Rightarrow> string" where
  "strings_ToUpper s = map toUpperByte s"

fun strings_Join :: "string list \<Rightarrow> string \<Rightarrow> string" where
  "strings_Join [] sep = []"
| "strings_Join [x] sep = x"
| "strings_Join (x # y # ys) sep = x @ sep @ strings_Join (y # ys) sep"

section \<open>Constants\<close>

definition numCronFields :: nat where "numCronFields = 5"
definition minAbbrevLength :: nat where "minAbbrevLength = 3"
definition fieldIndexMonth :: int where "fieldIndexMonth = 3"
definition fieldIndexWeekday :: int where "fieldIndexWeekday = 4"
definition stepValueMinLength :: nat where "stepValueMinLength = 2"
definition copyMessageText :: string where "copyMessageText = ''Copied!''"
definition copyFailedText :: string where "copyFailedText = ''Failed to copy''"

definition fieldNames :: "string list" where
  "fieldNames = [''minute'', ''hour'', ''day'', ''month'', ''weekday'']"

section \<open>The token validator\<close>

definition validMonths :: "string list" where
  "validMonths = [''JAN'', ''FEB'', ''MAR'', ''APR'', ''MAY'', ''JUN'',
                  ''JUL'', ''AUG'', ''SEP'', ''OCT'', ''NOV'', ''DEC'']"

definition validDays :: "string list" where
  "validDays = [''SUN'', ''MON'', ''TUE'', ''WED'', ''THU'', ''FRI'', ''SAT'']"

definition validateMonthAbbreviation :: "string \<Rightarrow> bool" where
  "validateMonthAbbreviation letterPart =
     list_ex (\<lambda>month. strings_Contains letterPart month \<or> strings_HasPrefix letterPart month)
       validMonths"

definition validateWeekdayAbbreviation :: "string \<Rightarrow> bool" where
  "validateWeekdayAbbreviation letterPart =
     list_ex (\<lambda>day. strings_Contains letterPart day \<or> strings_HasPrefix letterPart day)
       validDays"

definition isUpperAZ :: "char \<Rightarrow> bool" where
  "isUpperAZ c = (byte CHR ''A'' \<le> byte c \<and> byte c \<le> byte CHR ''Z'')"

definition isDigit :: "char \<Rightarrow> bool" where
  "isDigit c = (byte CHR ''0'' \<le> byte c \<and> byte c \<le> byte CHR ''9'')"

text \<open>The loop of \<open>extractLetterPart\<close> appends while the character is in \<open>A..Z\<close> and
  breaks at the first other character.\<close>

definition extractLetterPart :: "string \<Rightarrow> string" where
  "extractLetterPart value = (let upper = strings_ToUpper value in takeWhile isUpperAZ upper)"

definition hasLetters :: "string \<Rightarrow> bool" where
  "hasLetters value = list_ex (\<lambda>c. isUpperAZ c \<or> isLowerAZ c) value"

definition validateStepValue :: "string \<Rightarrow> bool" where
  "validateStepValue value =
     (if \<not> strings_HasPrefix value ''*'' \<or> length value \<le> 1 then True
      else if value ! 1 \<noteq> CHR ''/'' then False
      else if length value = stepValueMinLength then False
      else list_all isDigit (drop stepValueMinLength value))"

definition isValidCharForField :: "string \<Rightarrow> int \<Rightarrow> bool" where
  "isValidCharForField value fieldIndex =
     (let validChars = ''0123456789*,-/'' @
            (if fieldIndex = fieldIndexMonth \<or> fieldIndex = fieldIndexWeekday
             then ''ABCDEFGHIJKLMNOPQRSTUVWXYZ'' else [])
      in list_all (\<lambda>c. c \<in> set validChars) value)"

definition validateLetterValue :: "string \<Rightarrow> int \<Rightarrow> bool" where
  "validateLetterValue value fieldIndex =
     (if fieldIndex \<noteq> fieldIndexMonth \<and> fieldIndex \<noteq> fieldIndexWeekday then False
      else let letterPart = extractLetterPart value in
        if length letterPart < minAbbrevLength then False
        else if fieldIndex = fieldIndexMonth then validateMonthAbbreviation letterPart
        else validateWeekdayAbbreviation letterPart)"

definition isValidCronPart :: "string \<Rightarrow> int \<Rightarrow> bool" where
  "isValidCronPart value fieldIndex =
     (if value = '''' \<or> value = ''*'' then True
      else if \<not> isValidCharForField value fieldIndex then False
      else if hasLetters value then validateLetterValue value fieldIndex
      else validateStepValue value)"

section \<open>The editor state\<close>

text \<open>
  A text input of the external toolkit is reduced to what the editor reads and sets:
  its text (\<open>Value()\<close>) and its focus flag (\<open>Focused()\<close>, set by \<open>Focus()\<close>, reset by
  \<open>Blur()\<close>).
\<close>

record textinput =
  Value :: string
  Focused :: bool

definition Focus :: "textinput \<Rightarrow> textinput" where
  "Focus t = t\<lparr>Focused := True\<rparr>"

definition Blur :: "textinput \<Rightarrow> textinput" where
  "Blur t = t\<lparr>Focused := False\<rparr>"

text \<open>
  Errors are values.  \<open>ErrInvalidValue name\<close> is \<open>fmt.Errorf("%w: %s", ErrInvalidValue,
  name)\<close>; \<open>ErrCronParse e\<close> wraps the parser's error \<open>e\<close>; \<open>ErrToDescription e\<close> is the
  descriptor's error \<open>e\<close>, stored as it is.
\<close>

datatype error =
    ErrInvalidValue string
  | ErrToDescription string
  | ErrCronParse string

fun Error :: "error \<Rightarrow> string" where
  "Error (ErrInvalidValue name) = ''invalid value in field'' @ '': '' @ name"
| "Error (ErrToDescription e) = e"
| "Error (ErrCronParse e) = ''failed to parse cron expression'' @ '': '' @ e"

text \<open>A run-time panic of the Go program: a slice index out of range.\<close>

datatype panic = IndexOutOfRange

text \<open>The calls the editor makes to its external collaborators, in order.\<close>

datatype call =
    CallToDescription string
  | CallParse string
  | CallClipboardWriteAll string

text \<open>
  The collaborators are parameters of the model: the descriptor's \<open>ToDescription\<close> (for
  the English locale), the schedule parser's \<open>Parse\<close>, the formatted next occurrence
  after the current instant of a parsed schedule, and the clipboard (whether it is
  available, and whether \<open>WriteAll\<close> succeeds on a text).  \<open>Inl\<close> is the error.
  Each collaborator answers with a value or an error, as its Go signature says; a
  panic raised inside a collaborator is not part of this model.
\<close>

record 'sched collaborators =
  ToDescription :: "string \<Rightarrow> string + string"
  Parse :: "string \<Rightarrow> string + 'sched"
  NextFormatted :: "'sched \<Rightarrow> string"
  clipboardAvailable :: bool
  clipboardWriteAll :: "string \<Rightarrow> bool"

text \<open>
  The fields of the Go struct \<open>model\<close> (the descriptor is a collaborator, see above),
  and one more component that the struct does not have: \<open>trace\<close>, the list of the
  collaborator calls made so far.
\<close>

record model =
  inputs :: "textinput list"
  description :: string
  nextRun :: string
  err :: "error option"
  width :: int
  height :: int
  focusIndex :: int
  copyMessage :: string
  showHelp :: bool
  lastCronExpr :: string
  trace :: "call list"

datatype cmd = Quit | Blink | Tick

section \<open>Expression synthesis\<close>

definition buildCronExpression :: "model \<Rightarrow> string" where
  "buildCronExpression m =
     (let cronParts = map (\<lambda>input. let value = Value input in
                                      if value = '''' then ''*'' else value) (inputs m)
      in strings_Join cronParts '' '')"

section \<open>The change-gated updater\<close>

text \<open>
  The updater only asks whether \<open>strings.TrimSpace(cronExpr)\<close> is empty, which is the
  case exactly when the text is made of white-space runes only.  Go's white space is
  tab, line feed, vertical tab, form feed, carriage return and space, and beyond
  ASCII the runes U+0085, U+00A0, U+1680, U+2000 to U+200A, U+2028, U+2029, U+202F,
  U+205F and U+3000, here in their UTF-8 encodings of two or three bytes.
\<close>

definition asciiSpace :: "char \<Rightarrow> bool" where
  "asciiSpace c = (byte c = 9 \<or> byte c = 10 \<or> byte c = 11 \<or> byte c = 12 \<or> byte c = 13
                   \<or> byte c = 32)"

definition space2 :: "char \<Rightarrow> char \<Rightarrow> bool" where
  "space2 a b = (byte a = 194 \<and> (byte b = 133 \<or> byte b = 160))"

definition space3 :: "char \<Rightarrow> char \<Rightarrow> char \<Rightarrow> bool" where
  "space3 a b c =
     (byte a = 225 \<and> byte b = 154 \<and> byte c = 128
      \<or> byte a = 226 \<and> byte b = 128 \<and>
          (128 \<le> byte c \<and> byte c \<le> 138 \<or> byte c = 168 \<or> byte c = 169 \<or> byte c = 175)
      \<or> byte a = 226 \<and> byte b = 129 \<and> byte c = 159
      \<or> byte a = 227 \<and> byte b = 128 \<and> byte c = 128)"

fun onlySpace :: "string \<Rightarrow> bool" where
  "onlySpace [] = True"
| "onlySpace [a] = asciiSpace a"
| "onlySpace [a, b] = (if asciiSpace a then asciiSpace b else space2 a b)"
| "onlySpace (a # b # c # s) =
     (if asciiSpace a then onlySpace (b # c # s)
      else if space2 a b then onlySpace (c # s)
      else if space3 a b c then onlySpace s
      else False)"

definition TrimSpace_is_empty :: "string \<Rightarrow> bool" where
  "TrimSpace_is_empty s = onlySpace s"

definition clearDescription :: "model \<Rightarrow> model" where
  "clearDescription m = m\<lparr>description := '''', nextRun := '''', err := None\<rparr>"

text \<open>
  \<open>validateCronParts\<close> walks the inputs with their index; \<open>fieldNames[index]\<close> panics
  when the index is not below the number of field names.
\<close>

fun validateCronPartsFrom :: "nat \<Rightarrow> textinput list \<Rightarrow> panic + error option" where
  "validateCronPartsFrom index [] = Inr None"
| "validateCronPartsFrom index (input # rest) =
     (if \<not> isValidCronPart (Value input) (int index)
      then (if index < length fieldNames then Inr (Some (ErrInvalidValue (fieldNames ! index)))
            else Inl IndexOutOfRange)
      else validateCronPartsFrom (index + 1) rest)"

definition validateCronParts :: "model \<Rightarrow> panic + error option" where
  "validateCronParts m = validateCronPartsFrom 0 (inputs m)"

definition updateCronDescription :: "'s collaborators \<Rightarrow> string \<Rightarrow> model \<Rightarrow> model" where
  "updateCronDescription env cronExpr m =
     (let m1 = m\<lparr>trace := trace m @ [CallToDescription cronExpr]\<rparr> in
      case ToDescription env cronExpr of
        Inl e \<Rightarrow> m1\<lparr>err := Some (ErrToDescription e), description := '''', nextRun := ''''\<rparr>
      | Inr desc \<Rightarrow> m1\<lparr>description := desc, err := None\<rparr>)"

definition updateNextRunTime :: "'s collaborators \<Rightarrow> string \<Rightarrow> model \<Rightarrow> model" where
  "updateNextRunTime env cronExpr m =
     (let m1 = m\<lparr>trace := trace m @ [CallParse cronExpr]\<rparr> in
      case Parse env cronExpr of
        Inl e \<Rightarrow> m1\<lparr>nextRun := '''', err := Some (ErrCronParse e)\<rparr>
      | Inr schedule \<Rightarrow> m1\<lparr>nextRun := NextFormatted env schedule\<rparr>)"

definition updateDescription :: "'s collaborators \<Rightarrow> model \<Rightarrow> panic + model" where
  "updateDescription env m =
     (let cronExpr = buildCronExpression m in
      if cronExpr = lastCronExpr m then Inr m
      else let m1 = m\<lparr>lastCronExpr := cronExpr\<rparr> in
        if TrimSpace_is_empty cronExpr then Inr (clearDescription m1)
        else case validateCronParts m1 of
          Inl p \<Rightarrow> Inl p
        | Inr (Some e) \<Rightarrow> Inr (m1\<lparr>err := Some e, description := '''', nextRun := ''''\<rparr>)
        | Inr None \<Rightarrow> Inr (updateNextRunTime env cronExpr (updateCronDescription env cronExpr m1)))"

section \<open>Clipboard and focus navigation\<close>

definition handleCopyToClipboard :: "'s collaborators \<Rightarrow> model \<Rightarrow> model \<times> cmd" where
  "handleCopyToClipboard env m =
     (let cronParts = map Value (inputs m);
          cronExpr = strings_Join cronParts '' ''
      in if \<not> clipboardAvailable env then (m\<lparr>copyMessage := ''Clipboard not available''\<rparr>, Tick)
         else let m1 = m\<lparr>trace := trace m @ [CallClipboardWriteAll cronExpr]\<rparr> in
           if \<not> clipboardWriteAll env cronExpr then (m1\<lparr>copyMessage := copyFailedText\<rparr>, Tick)
           else (m1\<lparr>copyMessage := copyMessageText\<rparr>, Tick))"

text \<open>
  \<open>m.inputs[i]\<close> panics for an index outside the slice.  In \<open>handleTabNavigation\<close> the
  remainder \<open>(focusIndex + 1) % len(inputs)\<close> is taken after the indexing succeeded, so
  both operands are positive and Go's remainder is \<open>mod\<close>.
\<close>

definition inRange :: "int \<Rightarrow> textinput list \<Rightarrow> bool" where
  "inRange i xs = (0 \<le> i \<and> i < int (length xs))"

definition handleTabNavigation :: "model \<Rightarrow> panic + model \<times> cmd" where
  "handleTabNavigation m =
     (if \<not> inRange (focusIndex m) (inputs m) then Inl IndexOutOfRange
      else let i = nat (focusIndex m);
               inputs1 = (inputs m)[i := Blur (inputs m ! i)];
               focusIndex1 = (focusIndex m + 1) mod int (length inputs1);
               j = nat focusIndex1;
               inputs2 = inputs1[j := Focus (inputs1 ! j)]
           in Inr (m\<lparr>inputs := inputs2, focusIndex := focusIndex1\<rparr>, Blink))"

definition handleShiftTabNavigation :: "model \<Rightarrow> panic + model \<times> cmd" where
  "handleShiftTabNavigation m =
     (if \<not> inRange (focusIndex m) (inputs m) then Inl IndexOutOfRange
      else let i = nat (focusIndex m);
               inputs1 = (inputs m)[i := Blur (inputs m ! i)];
               focusIndex1 = focusIndex m - 1;
               focusIndex2 = (if focusIndex1 < 0 then int (length inputs1) - 1 else focusIndex1)
           in if inRange focusIndex2 inputs1
              then Inr (m\<lparr>inputs := inputs1[nat focusIndex2 := Focus (inputs1 ! nat focusIndex2)],
                          focusIndex := focusIndex2\<rparr>, Blink)
              else Inr (m\<lparr>inputs := inputs1[0 := Focus (inputs1 ! 0)], focusIndex := 0\<rparr>, Blink))"

text \<open>\<open>handleBackspaceNavigation\<close> returns no command (\<open>None\<close>) when it does not move.\<close>

definition handleBackspaceNavigation :: "model \<Rightarrow> panic + model \<times> cmd option" where
  "handleBackspaceNavigation m =
     (if \<not> inRange (focusIndex m) (inputs m) then Inl IndexOutOfRange
      else let i = nat (focusIndex m) in
        if Value (inputs m ! i) = '''' \<and> focusIndex m > 0
        then let inputs1 = (inputs m)[i := Blur (inputs m ! i)];
                 focusIndex1 = focusIndex m - 1
             in if inRange focusIndex1 inputs1
                then Inr (m\<lparr>inputs := inputs1[nat focusIndex1 := Focus (inputs1 ! nat focusIndex1)],
                            focusIndex := focusIndex1\<rparr>, Some Blink)
                else Inr (m\<lparr>inputs := inputs1[0 := Focus (inputs1 ! 0)], focusIndex := 0\<rparr>,
                          Some Blink)
        else Inr (m, None))"

text \<open>
  \<open>handleKeyMessage\<close> gets the key's name (\<open>msg.String()\<close>).  The result \<open>None\<close> is the
  Go result \<open>nil, nil\<close>: the key is not handled here and goes on to the focused input.
\<close>

definition handleKeyMessage ::
  "'s collaborators \<Rightarrow> string \<Rightarrow> model \<Rightarrow> panic + (model \<times> cmd option) option" where
  "handleKeyMessage env key m =
     (if key = ''ctrl+c'' \<or> key = ''esc'' then Inr (Some (m, Some Quit))
      else if key = ''y'' then
        (case handleCopyToClipboard env m of (m1, c) \<Rightarrow> Inr (Some (m1, Some c)))
      else if key = ''?'' then Inr (Some (m\<lparr>showHelp := \<not> showHelp m\<rparr>, None))
      else if key = ''tab'' \<or> key = '' '' \<or> key = ''enter'' then
        (case handleTabNavigation m of
           Inl p \<Rightarrow> Inl p | Inr (m1, c) \<Rightarrow> Inr (Some (m1, Some c)))
      else if key = ''shift+tab'' then
        (case handleShiftTabNavigation m of
           Inl p \<Rightarrow> Inl p | Inr (m1, c) \<Rightarrow> Inr (Some (m1, Some c)))
      else if key = ''backspace'' then
        (case handleBackspaceNavigation m of
           Inl p \<Rightarrow> Inl p
         | Inr (m1, Some c) \<Rightarrow> Inr (Some (m1, Some c))
         | Inr (m1, None) \<Rightarrow> Inr None)
      else Inr None)"

section \<open>Notions of the specification\<close>

text \<open>
  The specification speaks of the leading run of letters of a value (from position 0),
  taken before any case normalisation.  This definition follows those words; the
  source's \<open>extractLetterPart\<close> normalises first and cuts afterwards.
\<close>

definition leadingLetters :: "string \<Rightarrow> string" where
  "leadingLetters value = takeWhile (\<lambda>c. isUpperAZ c \<or> isLowerAZ c) value"

text \<open>
  The focus transitions in the specification's words: \<open>Advance\<close> takes the index to
  \<open>(index + 1) mod 5\<close>, \<open>Retreat\<close> to \<open>(index - 1 + 5) mod 5\<close>, and each deactivates
  the input that was active and activates the new one.
\<close>

definition moveFocus :: "int \<Rightarrow> model \<Rightarrow> model" where
  "moveFocus j m =
     m\<lparr>inputs := (inputs m)[nat (focusIndex m) := Blur (inputs m ! nat (focusIndex m)),
                              nat j := Focus (inputs m ! nat j)],
       focusIndex := j\<rparr>"

definition Advance :: "model \<Rightarrow> model" where
  "Advance m = moveFocus ((focusIndex m + 1) mod 5) m"

definition Retreat :: "model \<Rightarrow> model" where
  "Retreat m = moveFocus ((focusIndex m - 1 + 5) mod 5) m"

section \<open>Example states\<close>

text \<open>
  A state of the editor with the given field texts, focus index and last-seen
  expression, and collaborators for the examples: the descriptor always answers, the
  parser rejects the expression with day 32 and accepts every other one.
\<close>

definition exampleModel :: "string list \<Rightarrow> int \<Rightarrow> string \<Rightarrow> model" where
  "exampleModel vs fi lastSeen =
     \<lparr>inputs = map (\<lambda>i. \<lparr>Value = vs ! i, Focused = (int i = fi)\<rparr>) [0..<length vs],
      description = '''', nextRun = '''', err = None, width = 80, height = 24,
      focusIndex = fi, copyMessage = '''', showHelp = False, lastCronExpr = lastSeen,
      trace = []\<rparr>"

definition exampleEnv :: "unit collaborators" where
  "exampleEnv =
     \<lparr>ToDescription = (\<lambda>e. Inr (''At '' @ e)),
      Parse = (\<lambda>e. if e = ''20 4 32 * *'' then Inl ''end of range (32) above maximum (31)''
                     else Inr ()),
      NextFormatted = (\<lambda>_. ''2026-01-01 04:20:00''),
      clipboardAvailable = True,
      clipboardWriteAll = (\<lambda>_. True)\<rparr>"

text \<open>The state after one update of the fields \<open>30\<close>, empty, \<open>*\<close>, \<open>*\<close>, \<open>*\<close>.\<close>

definition settledModel :: model where
  "settledModel = (exampleModel [''30'', '''', ''*'', ''*'', ''*''] 0 ''20 4 * * *'')
     \<lparr>description := ''At 30 * * * *'', nextRun := ''2026-01-01 04:20:00'',
      lastCronExpr := ''30 * * * *'',
      trace := [CallToDescription ''30 * * * *'', CallParse ''30 * * * *'']\<rparr>"

text \<open>Further example states, named by what their fields hold.\<close>

definition blankModel :: model where
  "blankModel = (exampleModel ['' '', '' '', '' '', '' '', '' ''] 0 ''20 4 * * *'')
     \<lparr>description := ''At 20 4 * * *'', nextRun := ''2026-01-01 04:20:00'',
      err := Some (ErrCronParse ''old'')\<rparr>"

definition monthSModel :: model where
  "monthSModel = exampleModel [''20'', ''4'', ''*'', ''S'', ''*''] 3 ''20 4 * * *''"

definition day32Model :: model where
  "day32Model = exampleModel [''20'', ''4'', ''32'', ''*'', ''*''] 2 ''20 4 * * *''"

definition emptyDayModel :: model where
  "emptyDayModel = exampleModel [''20'', ''4'', '''', '''', ''*''] 4 ''20 4 * * *''"

section \<open>Characters\<close>

lemma byte_char_of: "byte (char_of (n::nat)) = n mod 256"
  by (simp add: byte_def)

lemma isUpperAZ_iff: "isUpperAZ c \<longleftrightarrow> 65 \<le> byte c \<and> byte c \<le> 90"
  unfolding isUpperAZ_def by (simp add: byte_def)

lemma isLowerAZ_iff: "isLowerAZ c \<longleftrightarrow> 97 \<le> byte c \<and> byte c \<le> 122"
  unfolding isLowerAZ_def by (simp add: byte_def)

lemma isDigit_iff: "isDigit c \<longleftrightarrow> 48 \<le> byte c \<and> byte c \<le> 57"
  unfolding isDigit_def by (simp add: byte_def)

lemma isUpperAZ_toUpperByte: "isUpperAZ (toUpperByte c) = (isUpperAZ c \<or> isLowerAZ c)"
proof (cases "isLowerAZ c")
  case True
  then have r: "97 \<le> byte c" "byte c \<le> 122"
    by (simp_all add: isLowerAZ_iff)
  then have "byte (toUpperByte c) = byte c - 32"
    using True by (simp add: toUpperByte_def byte_char_of)
  with r True show ?thesis
    unfolding isUpperAZ_iff by arith
next
  case False
  then show ?thesis
    by (simp add: toUpperByte_def)
qed

lemma toUpperByte_id: "\<not> isLowerAZ c \<Longrightarrow> toUpperByte c = c"
  by (simp add: toUpperByte_def)

text \<open>The source cuts the letter run after upper-casing; the specification's reading
  (cut first, normalise afterwards) gives the same text.\<close>

lemma extractLetterPart_spec:
  "extractLetterPart value = strings_ToUpper (leadingLetters value)"
  by (simp add: extractLetterPart_def strings_ToUpper_def leadingLetters_def takeWhile_map
      comp_def isUpperAZ_toUpperByte)

lemma base_char_no_letter:
  "c \<in> set ''0123456789*,-/'' \<Longrightarrow> \<not> isUpperAZ c \<and> \<not> isLowerAZ c"
  unfolding isUpperAZ_iff isLowerAZ_iff by (auto simp add: byte_def)

lemma upper_table: "map char_of [65..<91::nat] = ''ABCDEFGHIJKLMNOPQRSTUVWXYZ''"
  by code_simp

lemma upper_char_iff: "c \<in> set ''ABCDEFGHIJKLMNOPQRSTUVWXYZ'' \<longleftrightarrow> isUpperAZ c"
proof
  assume "c \<in> set ''ABCDEFGHIJKLMNOPQRSTUVWXYZ''"
  then show "isUpperAZ c"
    unfolding isUpperAZ_iff by (auto simp add: byte_def)
next
  assume "isUpperAZ c"
  then have "byte c \<in> set [65..<91]"
    unfolding set_upt atLeastLessThan_iff isUpperAZ_iff by arith
  then have "char_of (byte c) \<in> set (map char_of [65..<91::nat])"
    by (simp only: set_map image_eqI)
  then show "c \<in> set ''ABCDEFGHIJKLMNOPQRSTUVWXYZ''"
    by (simp only: upper_table) (simp add: byte_def)
qed

section \<open>The validator, function by function\<close>

lemmas validator_defs =
  isValidCronPart_def isValidCharForField_def hasLetters_def validateLetterValue_def
  validateStepValue_def extractLetterPart_def strings_ToUpper_def toUpperByte_def byte_def
  isUpperAZ_def isLowerAZ_def isDigit_def validateMonthAbbreviation_def
  validateWeekdayAbbreviation_def validMonths_def validDays_def strings_Contains_def
  strings_HasPrefix_def fieldIndexMonth_def fieldIndexWeekday_def minAbbrevLength_def
  stepValueMinLength_def leadingLetters_def

lemma contains_or_prefix:
  "(strings_Contains s a \<or> strings_HasPrefix s a) = strings_Contains s a"
  by (auto simp add: strings_Contains_def strings_HasPrefix_def)

lemma validateMonthAbbreviation_iff:
  "validateMonthAbbreviation lp \<longleftrightarrow> (\<exists>a \<in> set validMonths. strings_Contains lp a)"
  by (simp add: validateMonthAbbreviation_def list_ex_iff contains_or_prefix)

lemma validateWeekdayAbbreviation_iff:
  "validateWeekdayAbbreviation lp \<longleftrightarrow> (\<exists>a \<in> set validDays. strings_Contains lp a)"
  by (simp add: validateWeekdayAbbreviation_def list_ex_iff contains_or_prefix)

lemma hasLetters_nonempty: "hasLetters value \<Longrightarrow> value \<noteq> '''' \<and> value \<noteq> ''*''"
  by (auto simp add: hasLetters_def isUpperAZ_iff isLowerAZ_iff byte_def)

lemma isValidCronPart_letters:
  "hasLetters value \<Longrightarrow>
   isValidCronPart value f = (isValidCharForField value f \<and> validateLetterValue value f)"
  using hasLetters_nonempty [of "value"] by (simp add: isValidCronPart_def)

lemma validateLetterValue_iff:
  "validateLetterValue value f \<longleftrightarrow>
     (f = fieldIndexMonth \<or> f = fieldIndexWeekday) \<and>
     minAbbrevLength \<le> length (strings_ToUpper (leadingLetters value)) \<and>
     (\<exists>a \<in> set (if f = fieldIndexMonth then validMonths else validDays).
        strings_Contains (strings_ToUpper (leadingLetters value)) a)"
  by (auto simp add: validateLetterValue_def Let_def extractLetterPart_spec
      validateMonthAbbreviation_iff validateWeekdayAbbreviation_iff
      fieldIndexMonth_def fieldIndexWeekday_def)

lemma isValidCharForField_iff:
  "isValidCharForField value f \<longleftrightarrow>
     (\<forall>c \<in> set value. c \<in> set ''0123456789*,-/'' \<or>
        ((f = fieldIndexMonth \<or> f = fieldIndexWeekday) \<and> isUpperAZ c))"
proof (cases "f = fieldIndexMonth \<or> f = fieldIndexWeekday")
  case True
  then have "isValidCharForField value f =
      list_all (\<lambda>c. c \<in> set (''0123456789*,-/'' @ ''ABCDEFGHIJKLMNOPQRSTUVWXYZ'')) value"
    unfolding isValidCharForField_def Let_def by (simp only: if_True)
  with True show ?thesis
    unfolding list_all_iff set_append Un_iff upper_char_iff by blast
next
  case False
  then have "isValidCharForField value f =
      list_all (\<lambda>c. c \<in> set (''0123456789*,-/'' @ [])) value"
    unfolding isValidCharForField_def Let_def by (simp only: if_False)
  with False show ?thesis
    unfolding list_all_iff append_Nil2 by blast
qed

lemma base_chars_valid:
  "list_all (\<lambda>c. c \<in> set ''0123456789*,-/'') value \<Longrightarrow> isValidCharForField value f"
  unfolding isValidCharForField_iff list_all_iff by blast

lemma base_chars_no_letters:
  "list_all (\<lambda>c. c \<in> set ''0123456789*,-/'') value \<Longrightarrow> \<not> hasLetters value"
  unfolding hasLetters_def list_all_iff list_ex_iff using base_char_no_letter by blast

lemma validateStepValue_iff:
  "validateStepValue value \<longleftrightarrow>
     \<not> (\<exists>c rest. value = CHR ''*'' # c # rest \<and> c \<noteq> CHR ''/'') \<and>
     value \<noteq> ''*/'' \<and>
     \<not> (\<exists>rest. value = ''*/'' @ rest \<and> \<not> list_all isDigit rest)"
proof (cases "value")
  case Nil
  then show ?thesis by (simp add: validateStepValue_def)
next
  case (Cons a as)
  note outer = Cons
  show ?thesis
  proof (cases as)
    case Nil
    with outer show ?thesis by (simp add: validateStepValue_def)
  next
    case (Cons b bs)
    with outer show ?thesis
      by (cases bs) (auto simp add: validateStepValue_def strings_HasPrefix_def stepValueMinLength_def)
  qed
qed

lemma valid_no_lower:
  assumes "isValidCronPart value f" and "c \<in> set value"
  shows "\<not> isLowerAZ c"
proof (cases "value = '''' \<or> value = ''*''")
  case True
  with assms(2) have "c = CHR ''*''" by auto
  then show ?thesis by (simp add: isLowerAZ_iff byte_def)
next
  case False
  with assms(1) have "isValidCharForField value f"
    by (simp add: isValidCronPart_def split: if_splits)
  with assms(2) have "c \<in> set ''0123456789*,-/'' \<or> isUpperAZ c"
    unfolding isValidCharForField_iff by blast
  then show ?thesis
  proof
    assume "c \<in> set ''0123456789*,-/''"
    then show ?thesis by (rule base_char_no_letter [THEN conjunct2])
  next
    assume "isUpperAZ c"
    then show ?thesis unfolding isUpperAZ_iff isLowerAZ_iff by arith
  qed
qed

lemma valid_ToUpper_id: "isValidCronPart value f \<Longrightarrow> strings_ToUpper value = value"
  unfolding strings_ToUpper_def
  by (rule map_idI) (simp add: toUpperByte_id valid_no_lower)

lemma JAN_valid_month: "isValidCronPart ''JAN'' fieldIndexMonth"
  by (simp add: validator_defs sublist_code)

lemma JANUARY_valid_month: "isValidCronPart ''JANUARY'' fieldIndexMonth"
  by (simp add: validator_defs sublist_code)

lemma XYZ_invalid_month: "\<not> isValidCronPart ''XYZ'' fieldIndexMonth"
  by (simp add: validator_defs sublist_code)

lemma JA_invalid_month: "\<not> isValidCronPart ''JA'' fieldIndexMonth"
  by (simp add: validator_defs sublist_code)

lemma jan_invalid_month: "\<not> isValidCronPart ''jan'' fieldIndexMonth"
  by (simp add: validator_defs)

section \<open>Values with letters\<close>

text \<open>
  Claim C1.  Let \<open>value\<close> contain a letter.  If \<open>isValidCronPart value f\<close> holds then
  (a) \<open>f\<close> is the month or the weekday field, (b) the leading run of letters has at
  least three characters and (c) that run, upper-cased, contains one of the field's
  abbreviations (\<open>JAN\<close> to \<open>DEC\<close> for the month, \<open>SUN\<close> to \<open>SAT\<close> for the weekday); in
  the minute, hour and day fields the value is invalid.  When moreover every character
  of the value passes \<open>isValidCharForField\<close>, (a) to (c) are sufficient.  \<open>JAN\<close> and
  \<open>JANUARY\<close> are valid months, \<open>XYZ\<close> and \<open>JA\<close> are not.
\<close>

theorem letter_value_validity:
  assumes "hasLetters value"
  shows "(isValidCronPart value f \<longrightarrow>
            (f = fieldIndexMonth \<or> f = fieldIndexWeekday) \<and>
            minAbbrevLength \<le> length (strings_ToUpper (leadingLetters value)) \<and>
            (\<exists>a \<in> set (if f = fieldIndexMonth then validMonths else validDays).
               strings_Contains (strings_ToUpper (leadingLetters value)) a)) \<and>
         (f \<noteq> fieldIndexMonth \<and> f \<noteq> fieldIndexWeekday \<longrightarrow> \<not> isValidCronPart value f) \<and>
         (isValidCharForField value f \<and>
            (f = fieldIndexMonth \<or> f = fieldIndexWeekday) \<and>
            minAbbrevLength \<le> length (strings_ToUpper (leadingLetters value)) \<and>
            (\<exists>a \<in> set (if f = fieldIndexMonth then validMonths else validDays).
               strings_Contains (strings_ToUpper (leadingLetters value)) a)
          \<longrightarrow> isValidCronPart value f) \<and>
         isValidCronPart ''JAN'' fieldIndexMonth \<and> isValidCronPart ''JANUARY'' fieldIndexMonth \<and>
         \<not> isValidCronPart ''XYZ'' fieldIndexMonth \<and> \<not> isValidCronPart ''JA'' fieldIndexMonth"
  unfolding isValidCronPart_letters [OF assms] validateLetterValue_iff
  using JAN_valid_month JANUARY_valid_month XYZ_invalid_month JA_invalid_month by blast

theorem letter_value_validity_witness:
  "hasLetters ''MAR-MAY'' \<and> isValidCharForField ''MAR-MAY'' fieldIndexMonth \<and>
   minAbbrevLength \<le> length (strings_ToUpper (leadingLetters ''MAR-MAY'')) \<and>
   strings_Contains (strings_ToUpper (leadingLetters ''MAR-MAY'')) ''MAR'' \<and>
   ''MAR'' \<in> set validMonths \<and>
   isValidCronPart ''MAR-MAY'' fieldIndexMonth"
proof -
  have h: "hasLetters ''MAR-MAY''"
    by (simp add: validator_defs)
  have c: "isValidCharForField ''MAR-MAY'' fieldIndexMonth"
    by (simp add: validator_defs)
  have l: "minAbbrevLength \<le> length (strings_ToUpper (leadingLetters ''MAR-MAY''))"
    by (simp add: validator_defs)
  have s: "strings_Contains (strings_ToUpper (leadingLetters ''MAR-MAY'')) ''MAR''"
    by (simp add: validator_defs sublist_code)
  have m: "''MAR'' \<in> set validMonths"
    by (simp add: validMonths_def)
  have bex: "\<exists>a \<in> set (if fieldIndexMonth = fieldIndexMonth then validMonths else validDays).
      strings_Contains (strings_ToUpper (leadingLetters ''MAR-MAY'')) a"
    using s m by (simp only: simp_thms if_True) blast
  from letter_value_validity [OF h, of fieldIndexMonth] c l bex
  have "isValidCronPart ''MAR-MAY'' fieldIndexMonth"
    by blast
  with h c l s m show ?thesis by blast
qed

section \<open>Values without letters\<close>

text \<open>
  Claim C2.  For every field index and every value made of digits, \<open>*\<close>, \<open>,\<close>, \<open>-\<close> and
  \<open>/\<close> only, \<open>isValidCronPart\<close> accepts the value exactly when it does not begin with
  \<open>*\<close> followed by a character other than \<open>/\<close>, is not \<open>*/\<close>, and is not \<open>*/\<close>
  followed by a text with a character that is not a digit; no numeric bound is checked.
  For every field \<open>*/5\<close> is valid, \<open>*/\<close> and \<open>*a\<close> are invalid, and \<open>1-5/2\<close>, \<open>1--5\<close>
  and \<open>,,\<close> are valid.
\<close>

theorem letter_free_value_validity:
  "(list_all (\<lambda>c. c \<in> set ''0123456789*,-/'') value \<longrightarrow>
      (isValidCronPart value f \<longleftrightarrow>
         \<not> (\<exists>c rest. value = CHR ''*'' # c # rest \<and> c \<noteq> CHR ''/'') \<and>
         value \<noteq> ''*/'' \<and>
         \<not> (\<exists>rest. value = ''*/'' @ rest \<and> \<not> list_all isDigit rest))) \<and>
   isValidCronPart ''*/5'' f \<and> \<not> isValidCronPart ''*/'' f \<and> \<not> isValidCronPart ''*a'' f \<and>
   isValidCronPart ''1-5/2'' f \<and> isValidCronPart ''1--5'' f \<and> isValidCronPart '',,'' f"
proof -
  have gen: "isValidCronPart value f \<longleftrightarrow>
         \<not> (\<exists>c rest. value = CHR ''*'' # c # rest \<and> c \<noteq> CHR ''/'') \<and>
         value \<noteq> ''*/'' \<and>
         \<not> (\<exists>rest. value = ''*/'' @ rest \<and> \<not> list_all isDigit rest)"
    if ok: "list_all (\<lambda>c. c \<in> set ''0123456789*,-/'') value"
  proof (cases "value = '''' \<or> value = ''*''")
    case True
    then show ?thesis by (auto simp add: isValidCronPart_def)
  next
    case False
    then have "isValidCronPart value f = validateStepValue value"
      using base_chars_valid [OF ok] base_chars_no_letters [OF ok]
      by (simp add: isValidCronPart_def)
    then show ?thesis by (simp only: validateStepValue_iff)
  qed
  have e1: "isValidCronPart ''*/5'' f" by (simp add: validator_defs)
  have e2: "\<not> isValidCronPart ''*/'' f" by (simp add: validator_defs)
  have e3: "\<not> isValidCronPart ''*a'' f" by (simp add: validator_defs)
  have e4: "isValidCronPart ''1-5/2'' f" by (simp add: validator_defs)
  have e5: "isValidCronPart ''1--5'' f" by (simp add: validator_defs)
  have e6: "isValidCronPart '',,'' f" by (simp add: validator_defs)
  from gen e1 e2 e3 e4 e5 e6 show ?thesis by blast
qed

theorem letter_free_value_validity_witness:
  "list_all (\<lambda>c. c \<in> set ''0123456789*,-/'') ''*/15'' \<and> ''*/15'' = ''*/'' @ ''15'' \<and>
   list_all isDigit ''15'' \<and> isValidCronPart ''*/15'' 0 \<and>
   list_all (\<lambda>c. c \<in> set ''0123456789*,-/'') ''*5'' \<and> \<not> isValidCronPart ''*5'' 0"
proof -
  have a: "list_all (\<lambda>c. c \<in> set ''0123456789*,-/'') ''*/15''" by simp
  have b: "list_all (\<lambda>c. c \<in> set ''0123456789*,-/'') ''*5''" by simp
  have d: "list_all isDigit ''15''" by (simp add: isDigit_def byte_def)
  from letter_free_value_validity [of "''*/15''" 0] a d
  have v: "isValidCronPart ''*/15'' 0" by simp
  from letter_free_value_validity [of "''*5''" 0] b
  have w: "\<not> isValidCronPart ''*5'' 0" by simp
  from a b d v w show ?thesis by simp
qed

section \<open>Letter case\<close>

text \<open>
  How far lower case is rejected.  The character check of \<open>isValidCharForField\<close> lists
  the upper-case letters only and runs before anything is upper-cased.  So every value
  that \<open>isValidCronPart\<close> accepts is its own upper-casing, and a value with a
  lower-case letter is rejected in every field.
\<close>

lemma lower_case_is_never_valid:
  "(isValidCronPart value f \<longrightarrow>
      strings_ToUpper value = value \<and> isValidCronPart (strings_ToUpper value) f) \<and>
   (list_ex isLowerAZ value \<longrightarrow> \<not> isValidCronPart value f)"
proof -
  have a: "strings_ToUpper value = value \<and> isValidCronPart (strings_ToUpper value) f"
    if "isValidCronPart value f"
    using that valid_ToUpper_id [OF that] by simp
  have b: "\<not> isValidCronPart value f" if "list_ex isLowerAZ value"
    using that valid_no_lower [of "value" f] unfolding list_ex_iff by blast
  from a b show ?thesis by blast
qed

text \<open>
  Claim C3 says that in the month and weekday fields a value is valid exactly when its
  upper-casing is.  The code breaks this at \<open>jan\<close> in the month field.  The value has
  letters (\<open>hasLetters\<close> counts \<open>a\<close> to \<open>z\<close>), \<open>extractLetterPart\<close> upper-cases it to
  \<open>JAN\<close>, and the letter check \<open>validateLetterValue\<close> accepts it; but
  \<open>isValidCharForField\<close> runs first and rejects the lower-case letters, so
  \<open>isValidCronPart\<close> rejects \<open>jan\<close> and accepts its upper-casing \<open>JAN\<close>.
\<close>

theorem lower_case_jan_rejected:
  "hasLetters ''jan'' \<and> extractLetterPart ''jan'' = ''JAN'' \<and>
   validateLetterValue ''jan'' fieldIndexMonth \<and>
   \<not> isValidCharForField ''jan'' fieldIndexMonth \<and>
   \<not> isValidCronPart ''jan'' fieldIndexMonth \<and>
   strings_ToUpper ''jan'' = ''JAN'' \<and>
   isValidCronPart (strings_ToUpper ''jan'') fieldIndexMonth"
  by (simp add: validator_defs char_of_def bit_Suc_0_iff sublist_code)

section \<open>The empty value and the wildcard\<close>

text \<open>
  Claim C4.  For every field index, the empty string and the lone wildcard \<open>*\<close> are
  valid.
\<close>

theorem empty_and_wildcard_valid:
  "isValidCronPart '''' f \<and> isValidCronPart ''*'' f"
  by (simp add: isValidCronPart_def)

theorem empty_and_wildcard_valid_witness:
  "isValidCronPart '''' 0 \<and> isValidCronPart ''*'' 0 \<and>
   isValidCronPart '''' fieldIndexMonth \<and> isValidCronPart ''*'' fieldIndexMonth"
  using empty_and_wildcard_valid [of 0] empty_and_wildcard_valid [of fieldIndexMonth]
  by simp

section \<open>Expression synthesis\<close>

text \<open>
  Claim C5.  \<open>buildCronExpression\<close> is a function of the five field texts alone: it
  returns them in field order, joined by single spaces, each empty text replaced by
  \<open>*\<close>, and it validates nothing.  Five empty fields give \<open>* * * * *\<close>.
\<close>

theorem buildCronExpression_five_fields:
  "buildCronExpression (m\<lparr>inputs := [t0, t1, t2, t3, t4]\<rparr>) =
     (if Value t0 = '''' then ''*'' else Value t0) @ '' '' @
     (if Value t1 = '''' then ''*'' else Value t1) @ '' '' @
     (if Value t2 = '''' then ''*'' else Value t2) @ '' '' @
     (if Value t3 = '''' then ''*'' else Value t3) @ '' '' @
     (if Value t4 = '''' then ''*'' else Value t4) \<and>
   buildCronExpression (m\<lparr>inputs := [t0\<lparr>Value := ''''\<rparr>, t1\<lparr>Value := ''''\<rparr>,
       t2\<lparr>Value := ''''\<rparr>, t3\<lparr>Value := ''''\<rparr>, t4\<lparr>Value := ''''\<rparr>]\<rparr>) = ''* * * * *''"
  by (simp add: buildCronExpression_def Let_def)

theorem buildCronExpression_five_fields_witness:
  "buildCronExpression (exampleModel [''20'', ''4'', '''', ''JAN'', ''x y''] 0 '''') =
     ''20 4 * JAN x y''"
proof -
  let ?t = "\<lambda>v b. \<lparr>Value = v, Focused = b\<rparr>"
  have m: "exampleModel [''20'', ''4'', '''', ''JAN'', ''x y''] 0 '''' =
      (exampleModel [''20'', ''4'', '''', ''JAN'', ''x y''] 0 '''')
        \<lparr>inputs := [?t ''20'' True, ?t ''4'' False, ?t '''' False, ?t ''JAN'' False,
                     ?t ''x y'' False]\<rparr>"
    by (simp add: exampleModel_def upt_rec)
  show ?thesis
    by (subst m, subst buildCronExpression_five_fields [THEN conjunct1]) simp
qed

section \<open>The unchanged-expression gate\<close>

lemma updateCronDescription_frame:
  "inputs (updateCronDescription env e m) = inputs m \<and>
   lastCronExpr (updateCronDescription env e m) = lastCronExpr m"
  by (simp add: updateCronDescription_def Let_def split: sum.split)

lemma updateNextRunTime_frame:
  "inputs (updateNextRunTime env e m) = inputs m \<and>
   lastCronExpr (updateNextRunTime env e m) = lastCronExpr m"
  by (simp add: updateNextRunTime_def Let_def split: sum.split)

lemma buildCronExpression_cong:
  "inputs m' = inputs m \<Longrightarrow> buildCronExpression m' = buildCronExpression m"
  by (simp add: buildCronExpression_def)

lemma updateDescription_settles:
  assumes "updateDescription env m = Inr m'"
  shows "inputs m' = inputs m \<and> lastCronExpr m' = buildCronExpression m"
proof (cases "buildCronExpression m = lastCronExpr m")
  case True
  with assms show ?thesis by (simp add: updateDescription_def)
next
  case False
  with assms show ?thesis
    by (auto simp add: updateDescription_def Let_def clearDescription_def
        updateCronDescription_frame updateNextRunTime_frame
        split: if_splits sum.splits option.splits)
qed

lemma validateCronPartsFrom_no_panic:
  "i + length xs \<le> length fieldNames \<Longrightarrow> validateCronPartsFrom i xs \<noteq> Inl p"
  by (induction xs arbitrary: i) auto

lemma updateDescription_returns:
  assumes "length (inputs m) = 5"
  shows "\<exists>m'. updateDescription env m = Inr m'"
proof -
  have "validateCronPartsFrom 0 (inputs m) \<noteq> Inl p" for p
    using validateCronPartsFrom_no_panic [of 0 "inputs m" p] assms
    by (simp add: fieldNames_def)
  then have "validateCronParts (m\<lparr>lastCronExpr := buildCronExpression m\<rparr>) \<noteq> Inl p" for p
    by (simp add: validateCronParts_def)
  then show ?thesis
    by (auto simp add: updateDescription_def Let_def split: sum.split option.split)
qed

text \<open>
  Claim C8.  When the synthesized expression equals the last-seen one, the updater
  returns the state as it is: description, next run, error and last-seen expression
  are unchanged and the trace of collaborator calls has not grown.  Hence a second call
  of the updater on the state the first call returned (the fields unchanged) returns
  that state again, whatever the collaborators would answer then.  With five inputs
  the first call does return a state.
\<close>

theorem unchanged_expression_is_a_no_op:
  "(buildCronExpression m = lastCronExpr m \<longrightarrow> updateDescription env m = Inr m) \<and>
   (updateDescription env m = Inr m' \<longrightarrow> updateDescription env' m' = Inr m') \<and>
   (length (inputs m) = 5 \<longrightarrow> (\<exists>m'. updateDescription env m = Inr m'))"
proof -
  have a: "updateDescription env m = Inr m" if "buildCronExpression m = lastCronExpr m"
    using that by (simp add: updateDescription_def)
  have b: "updateDescription env' m' = Inr m'" if "updateDescription env m = Inr m'"
  proof -
    from updateDescription_settles [OF that]
    have "inputs m' = inputs m" and l: "lastCronExpr m' = buildCronExpression m"
      by simp_all
    from buildCronExpression_cong [OF this(1)] l
    have "buildCronExpression m' = lastCronExpr m'"
      by simp
    then show ?thesis by (simp add: updateDescription_def)
  qed
  from a b updateDescription_returns [of m env] show ?thesis by blast
qed

lemmas updater_defs =
  updateDescription_def buildCronExpression_def validateCronParts_def Let_def
  TrimSpace_is_empty_def asciiSpace_def space2_def space3_def clearDescription_def
  updateCronDescription_def updateNextRunTime_def fieldNames_def exampleModel_def
  exampleEnv_def upt_rec

lemma first_update_settles:
  "updateDescription exampleEnv
     (exampleModel [''30'', '''', ''*'', ''*'', ''*''] 0 ''20 4 * * *'') = Inr settledModel"
  by (simp add: updater_defs validator_defs settledModel_def)

theorem unchanged_expression_is_a_no_op_witness:
  "buildCronExpression settledModel = lastCronExpr settledModel \<and>
   updateDescription exampleEnv
     (exampleModel [''30'', '''', ''*'', ''*'', ''*''] 0 ''20 4 * * *'') = Inr settledModel \<and>
   updateDescription exampleEnv settledModel = Inr settledModel"
proof -
  have g: "buildCronExpression settledModel = lastCronExpr settledModel"
    by (simp add: updater_defs settledModel_def)
  from unchanged_expression_is_a_no_op [of settledModel exampleEnv] g
  have "updateDescription exampleEnv settledModel = Inr settledModel" by blast
  moreover
  from unchanged_expression_is_a_no_op
         [of "exampleModel [''30'', '''', ''*'', ''*'', ''*''] 0 ''20 4 * * *''"
             exampleEnv settledModel exampleEnv]
       first_update_settles
  have "updateDescription exampleEnv settledModel = Inr settledModel" by blast
  ultimately show ?thesis using first_update_settles g by blast
qed

lemmas example_defs =
  blankModel_def monthSModel_def day32Model_def emptyDayModel_def settledModel_def

section \<open>Reporting the first invalid field\<close>

lemma validateCronPartsFrom_first_failure:
  "k < length xs \<Longrightarrow>
   (\<forall>j<k. isValidCronPart (Value (xs ! j)) (int (i + j))) \<Longrightarrow>
   \<not> isValidCronPart (Value (xs ! k)) (int (i + k)) \<Longrightarrow>
   validateCronPartsFrom i xs =
     (if i + k < length fieldNames then Inr (Some (ErrInvalidValue (fieldNames ! (i + k))))
      else Inl IndexOutOfRange)"
proof (induction xs arbitrary: i k)
  case Nil
  then show ?case by simp
next
  case (Cons x xs)
  show ?case
  proof (cases k)
    case 0
    with Cons.prems show ?thesis by simp
  next
    case (Suc k')
    from Cons.prems(2) Suc have x: "isValidCronPart (Value x) (int i)"
      by (metis add.right_neutral nth_Cons_0 zero_less_Suc)
    have a: "k' < length xs" using Cons.prems(1) Suc by simp
    have b: "\<forall>j<k'. isValidCronPart (Value (xs ! j)) (int (Suc i + j))"
    proof (intro allI impI)
      fix j assume "j < k'"
      then have "Suc j < k" using Suc by simp
      with Cons.prems(2) have "isValidCronPart (Value ((x # xs) ! Suc j)) (int (i + Suc j))"
        by blast
      then show "isValidCronPart (Value (xs ! j)) (int (Suc i + j))" by simp
    qed
    have c: "\<not> isValidCronPart (Value (xs ! k')) (int (Suc i + k'))"
      using Cons.prems(3) Suc by simp
    from Cons.IH [OF a b c] x Suc show ?thesis by simp
  qed
qed

lemma validateCronPartsFrom_all_valid:
  "(\<forall>j<length xs. isValidCronPart (Value (xs ! j)) (int (i + j))) \<Longrightarrow>
   validateCronPartsFrom i xs = Inr None"
proof (induction xs arbitrary: i)
  case Nil
  then show ?case by simp
next
  case (Cons x xs)
  from Cons.prems have x: "isValidCronPart (Value x) (int i)"
    by (metis add.right_neutral length_greater_0_conv list.distinct(1) nth_Cons_0)
  have b: "\<forall>j<length xs. isValidCronPart (Value (xs ! j)) (int (Suc i + j))"
  proof (intro allI impI)
    fix j assume "j < length xs"
    then have "Suc j < length (x # xs)" by simp
    with Cons.prems have "isValidCronPart (Value ((x # xs) ! Suc j)) (int (i + Suc j))"
      by blast
    then show "isValidCronPart (Value (xs ! j)) (int (Suc i + j))" by simp
  qed
  from Cons.IH [OF b] x show ?case by simp
qed

text \<open>
  The guard that comes before validation: when the synthesized expression is new and
  made of white space only, the updater empties the description and the next run,
  resets the error and records the expression, without looking at the fields.
\<close>

lemma blank_expression_clears:
  assumes "buildCronExpression m \<noteq> lastCronExpr m"
      and "TrimSpace_is_empty (buildCronExpression m)"
  shows "updateDescription env m =
           Inr (m\<lparr>lastCronExpr := buildCronExpression m,
                  description := '''', nextRun := '''', err := None\<rparr>)"
  using assms by (simp add: updateDescription_def Let_def clearDescription_def)

lemma blank_fields_example:
  "\<not> isValidCronPart '' '' 0 \<and>
   buildCronExpression blankModel = ''         '' \<and>
   description blankModel = ''At 20 4 * * *'' \<and>
   err blankModel = Some (ErrCronParse ''old'') \<and>
   updateDescription exampleEnv blankModel =
     Inr (blankModel\<lparr>lastCronExpr := ''         '', description := '''', nextRun := '''',
                     err := None\<rparr>)"
  by (simp add: blankModel_def updater_defs validator_defs)

text \<open>
  Claim C6.  Take an update cycle that reaches the validation of the fields (the
  synthesized expression differs from the last-seen one and is not made of white space
  only), with five fields of which field \<open>k\<close> is the first that \<open>isValidCronPart\<close>
  rejects.  Then the updater stores the error \<open>invalid value in field\<close> with the name
  of field \<open>k\<close> (minute, hour, day, month, weekday), empties the description and the
  next run, records the expression as last seen and changes nothing else: the trace of
  collaborator calls is the one before the cycle, so neither the descriptor nor the
  schedule parser is called.
\<close>

theorem invalid_field_is_reported:
  assumes gate: "buildCronExpression m \<noteq> lastCronExpr m"
      and nonblank: "\<not> TrimSpace_is_empty (buildCronExpression m)"
      and len: "length (inputs m) = 5"
      and k: "k < 5"
      and before: "\<forall>j<k. isValidCronPart (Value (inputs m ! j)) (int j)"
      and at: "\<not> isValidCronPart (Value (inputs m ! k)) (int k)"
  shows "updateDescription env m =
           Inr (m\<lparr>lastCronExpr := buildCronExpression m,
                  err := Some (ErrInvalidValue (fieldNames ! k)),
                  description := '''', nextRun := ''''\<rparr>) \<and>
         Error (ErrInvalidValue (fieldNames ! k)) = ''invalid value in field: '' @ fieldNames ! k \<and>
         trace (projr (updateDescription env m)) = trace m"
proof -
  have "validateCronPartsFrom 0 (inputs m) = Inr (Some (ErrInvalidValue (fieldNames ! k)))"
    using validateCronPartsFrom_first_failure [of k "inputs m" 0] len k before at
    by (simp add: fieldNames_def)
  then have "validateCronParts (m\<lparr>lastCronExpr := buildCronExpression m\<rparr>)
      = Inr (Some (ErrInvalidValue (fieldNames ! k)))"
    by (simp add: validateCronParts_def)
  with gate nonblank show ?thesis
    by (simp add: updateDescription_def Let_def fieldNames_def)
qed

theorem invalid_field_is_reported_witness:
  "buildCronExpression monthSModel \<noteq> lastCronExpr monthSModel \<and>
   \<not> TrimSpace_is_empty (buildCronExpression monthSModel) \<and>
   length (inputs monthSModel) = 5 \<and>
   isValidCronPart (Value (inputs monthSModel ! 0)) 0 \<and>
   isValidCronPart (Value (inputs monthSModel ! 1)) 1 \<and>
   isValidCronPart (Value (inputs monthSModel ! 2)) 2 \<and>
   \<not> isValidCronPart (Value (inputs monthSModel ! 3)) 3 \<and>
   updateDescription exampleEnv monthSModel =
     Inr (monthSModel\<lparr>lastCronExpr := ''20 4 * S *'',
                      err := Some (ErrInvalidValue ''month''),
                      description := '''', nextRun := ''''\<rparr>) \<and>
   Error (ErrInvalidValue ''month'') = ''invalid value in field: month''"
proof -
  have g: "buildCronExpression monthSModel \<noteq> lastCronExpr monthSModel"
    by (simp add: example_defs updater_defs)
  have b: "buildCronExpression monthSModel = ''20 4 * S *''"
    by (simp add: example_defs updater_defs)
  have n: "\<not> TrimSpace_is_empty (buildCronExpression monthSModel)"
    by (simp add: example_defs updater_defs byte_def)
  have l: "length (inputs monthSModel) = 5"
    by (simp add: example_defs updater_defs)
  have v0: "isValidCronPart (Value (inputs monthSModel ! 0)) 0"
    by (simp add: example_defs updater_defs validator_defs)
  have v1: "isValidCronPart (Value (inputs monthSModel ! 1)) 1"
    by (simp add: example_defs updater_defs validator_defs)
  have v2: "isValidCronPart (Value (inputs monthSModel ! 2)) 2"
    by (simp add: example_defs updater_defs validator_defs)
  have v3: "\<not> isValidCronPart (Value (inputs monthSModel ! 3)) 3"
    by (simp add: example_defs updater_defs validator_defs)
  have before: "\<forall>j<3. isValidCronPart (Value (inputs monthSModel ! j)) (int j)"
  proof (intro allI impI)
    fix j :: nat assume "j < 3"
    then have "j = 0 \<or> j = 1 \<or> j = 2" by arith
    with v0 v1 v2 show "isValidCronPart (Value (inputs monthSModel ! j)) (int j)"
      by auto
  qed
  have at: "\<not> isValidCronPart (Value (inputs monthSModel ! 3)) (int 3)"
    using v3 by simp
  have k: "(3::nat) < 5" by simp
  from invalid_field_is_reported [OF g n l k before at, of exampleEnv] b
  have "updateDescription exampleEnv monthSModel =
     Inr (monthSModel\<lparr>lastCronExpr := ''20 4 * S *'',
                      err := Some (ErrInvalidValue ''month''),
                      description := '''', nextRun := ''''\<rparr>) \<and>
   Error (ErrInvalidValue ''month'') = ''invalid value in field: month''"
    by (simp add: fieldNames_def)
  with g n l v0 v1 v2 v3 show ?thesis by blast
qed

section \<open>Valid fields: description and schedule\<close>

lemma valid_char_not_space:
  assumes "c \<in> set ''0123456789*,-/'' \<or> isUpperAZ c"
  shows "\<not> asciiSpace c \<and> byte c < 128"
  using assms
proof
  assume "c \<in> set ''0123456789*,-/''"
  then show ?thesis by (auto simp add: asciiSpace_def byte_def)
next
  assume "isUpperAZ c"
  then show ?thesis unfolding isUpperAZ_iff asciiSpace_def by arith
qed

lemma onlySpace_head:
  assumes "\<not> asciiSpace c" and "byte c < 128"
  shows "\<not> onlySpace (c # s)"
proof (cases s)
  case Nil
  with assms show ?thesis by simp
next
  case (Cons b bs)
  with assms show ?thesis
    by (cases bs) (simp_all add: space2_def space3_def)
qed

lemma valid_head_not_space:
  assumes "isValidCronPart (c # s) f"
  shows "\<not> asciiSpace c \<and> byte c < 128"
proof (cases "c # s = ''*''")
  case True
  then show ?thesis by (simp add: asciiSpace_def byte_def)
next
  case False
  with assms have "isValidCharForField (c # s) f"
    by (simp add: isValidCronPart_def split: if_splits)
  then have "c \<in> set ''0123456789*,-/'' \<or> isUpperAZ c"
    unfolding isValidCharForField_iff by auto
  then show ?thesis by (rule valid_char_not_space)
qed

lemma strings_Join_Cons:
  "strings_Join (p # ps) sep = p @ (if ps = [] then [] else sep @ strings_Join ps sep)"
  by (cases ps) simp_all

lemma valid_first_field_not_blank:
  assumes "inputs m = t # ts" and "isValidCronPart (Value t) f"
  shows "\<not> TrimSpace_is_empty (buildCronExpression m)"
proof (cases "Value t")
  case Nil
  with assms(1) have "buildCronExpression m =
      CHR ''*'' # (if ts = [] then [] else '' '' @
        strings_Join (map (\<lambda>input. if Value input = '''' then ''*'' else Value input) ts) '' '')"
    by (simp add: buildCronExpression_def Let_def strings_Join_Cons)
  moreover have "\<not> asciiSpace CHR ''*'' \<and> byte CHR ''*'' < 128"
    by (simp add: asciiSpace_def byte_def)
  ultimately show ?thesis
    by (simp only: TrimSpace_is_empty_def onlySpace_head not_False_eq_True)
next
  case (Cons c s)
  with assms(1) have "buildCronExpression m =
      c # (s @ (if ts = [] then [] else '' '' @
        strings_Join (map (\<lambda>input. if Value input = '''' then ''*'' else Value input) ts) '' ''))"
    by (simp add: buildCronExpression_def Let_def strings_Join_Cons)
  moreover have "\<not> asciiSpace c \<and> byte c < 128"
    using assms(2) Cons valid_head_not_space by simp
  ultimately show ?thesis
    by (simp only: TrimSpace_is_empty_def onlySpace_head not_False_eq_True)
qed

text \<open>
  Claim C7.  Take an update cycle that reaches the validation of the fields (the
  synthesized expression differs from the last-seen one), with five fields that all
  pass \<open>isValidCronPart\<close>.  Then the updater calls the descriptor and then the schedule
  parser on the synthesized expression, whatever the descriptor answered.  When the
  parser fails, its error is stored (wrapped as \<open>ErrCronParse\<close>), the next run is
  empty, and a description that the descriptor computed in this cycle is still there.
\<close>

theorem valid_fields_reach_both_collaborators:
  assumes gate: "buildCronExpression m \<noteq> lastCronExpr m"
      and len: "length (inputs m) = 5"
      and valid: "\<forall>i<5. isValidCronPart (Value (inputs m ! i)) (int i)"
  shows "\<exists>m'. updateDescription env m = Inr m' \<and>
           trace m' = trace m @ [CallToDescription (buildCronExpression m),
                                 CallParse (buildCronExpression m)] \<and>
           (\<forall>e. Parse env (buildCronExpression m) = Inl e \<longrightarrow>
                err m' = Some (ErrCronParse e) \<and> nextRun m' = '''' \<and>
                (\<forall>d. ToDescription env (buildCronExpression m) = Inr d \<longrightarrow> description m' = d))"
proof -
  let ?e = "buildCronExpression m"
  let ?m1 = "m\<lparr>lastCronExpr := ?e\<rparr>"
  from len obtain t ts where ts: "inputs m = t # ts"
    by (cases "inputs m") simp_all
  have "(0::nat) < 5" by simp
  with valid have "isValidCronPart (Value (inputs m ! 0)) (int 0)"
    by blast
  with ts have "isValidCronPart (Value t) 0" by simp
  from valid_first_field_not_blank [OF ts this]
  have nonblank: "\<not> TrimSpace_is_empty ?e" .
  have "validateCronPartsFrom 0 (inputs m) = Inr None"
    using validateCronPartsFrom_all_valid [of "inputs m" 0] len valid by simp
  then have v: "validateCronParts ?m1 = Inr None"
    by (simp add: validateCronParts_def)
  from gate nonblank v
  have u: "updateDescription env m = Inr (updateNextRunTime env ?e (updateCronDescription env ?e ?m1))"
    by (simp add: updateDescription_def Let_def)
  let ?m' = "updateNextRunTime env ?e (updateCronDescription env ?e ?m1)"
  have t: "trace ?m' = trace m @ [CallToDescription ?e, CallParse ?e]"
    by (simp add: updateNextRunTime_def updateCronDescription_def Let_def split: sum.split)
  have p: "\<forall>e. Parse env ?e = Inl e \<longrightarrow>
                err ?m' = Some (ErrCronParse e) \<and> nextRun ?m' = '''' \<and>
                (\<forall>d. ToDescription env ?e = Inr d \<longrightarrow> description ?m' = d)"
    by (simp add: updateNextRunTime_def updateCronDescription_def Let_def)
  from u t p show ?thesis by blast
qed

theorem valid_fields_reach_both_collaborators_witness:
  "buildCronExpression day32Model \<noteq> lastCronExpr day32Model \<and>
   length (inputs day32Model) = 5 \<and>
   isValidCronPart (Value (inputs day32Model ! 0)) 0 \<and>
   isValidCronPart (Value (inputs day32Model ! 1)) 1 \<and>
   isValidCronPart (Value (inputs day32Model ! 2)) 2 \<and>
   isValidCronPart (Value (inputs day32Model ! 3)) 3 \<and>
   isValidCronPart (Value (inputs day32Model ! 4)) 4 \<and>
   Parse exampleEnv ''20 4 32 * *'' = Inl ''end of range (32) above maximum (31)'' \<and>
   ToDescription exampleEnv ''20 4 32 * *'' = Inr ''At 20 4 32 * *'' \<and>
   (\<exists>m'. updateDescription exampleEnv day32Model = Inr m' \<and>
      trace m' = [CallToDescription ''20 4 32 * *'', CallParse ''20 4 32 * *''] \<and>
      err m' = Some (ErrCronParse ''end of range (32) above maximum (31)'') \<and>
      nextRun m' = '''' \<and> description m' = ''At 20 4 32 * *'')"
proof -
  have g: "buildCronExpression day32Model \<noteq> lastCronExpr day32Model"
    by (simp add: example_defs updater_defs)
  have b: "buildCronExpression day32Model = ''20 4 32 * *''"
    by (simp add: example_defs updater_defs)
  have t0: "trace day32Model = []"
    by (simp add: example_defs updater_defs)
  have l: "length (inputs day32Model) = 5"
    by (simp add: example_defs updater_defs)
  have v0: "isValidCronPart (Value (inputs day32Model ! 0)) 0"
    by (simp add: example_defs updater_defs validator_defs)
  have v1: "isValidCronPart (Value (inputs day32Model ! 1)) 1"
    by (simp add: example_defs updater_defs validator_defs)
  have v2: "isValidCronPart (Value (inputs day32Model ! 2)) 2"
    by (simp add: example_defs updater_defs validator_defs)
  have v3: "isValidCronPart (Value (inputs day32Model ! 3)) 3"
    by (simp add: example_defs updater_defs validator_defs)
  have v4: "isValidCronPart (Value (inputs day32Model ! 4)) 4"
    by (simp add: example_defs updater_defs validator_defs)
  have valid: "\<forall>i<5. isValidCronPart (Value (inputs day32Model ! i)) (int i)"
  proof (intro allI impI)
    fix i :: nat assume "i < 5"
    then have "i = 0 \<or> i = 1 \<or> i = 2 \<or> i = 3 \<or> i = 4" by arith
    with v0 v1 v2 v3 v4 show "isValidCronPart (Value (inputs day32Model ! i)) (int i)"
      by auto
  qed
  have p: "Parse exampleEnv ''20 4 32 * *'' = Inl ''end of range (32) above maximum (31)''"
    by (simp add: exampleEnv_def)
  have d: "ToDescription exampleEnv ''20 4 32 * *'' = Inr ''At 20 4 32 * *''"
    by (simp add: exampleEnv_def)
  from valid_fields_reach_both_collaborators [OF g l valid, of exampleEnv]
  obtain m' where m': "updateDescription exampleEnv day32Model = Inr m'"
      "trace m' = trace day32Model @ [CallToDescription (buildCronExpression day32Model),
                                 CallParse (buildCronExpression day32Model)]"
      "\<forall>e. Parse exampleEnv (buildCronExpression day32Model) = Inl e \<longrightarrow>
                err m' = Some (ErrCronParse e) \<and> nextRun m' = '''' \<and>
                (\<forall>d. ToDescription exampleEnv (buildCronExpression day32Model) = Inr d \<longrightarrow> description m' = d)"
    by blast
  from m'(3) p d b have "err m' = Some (ErrCronParse ''end of range (32) above maximum (31)'') \<and>
      nextRun m' = '''' \<and> description m' = ''At 20 4 32 * *''"
    by simp
  with m'(1) m'(2) t0 b have "\<exists>m'. updateDescription exampleEnv day32Model = Inr m' \<and>
      trace m' = [CallToDescription ''20 4 32 * *'', CallParse ''20 4 32 * *''] \<and>
      err m' = Some (ErrCronParse ''end of range (32) above maximum (31)'') \<and>
      nextRun m' = '''' \<and> description m' = ''At 20 4 32 * *''"
    by simp
  with g l v0 v1 v2 v3 v4 p d show ?thesis by blast
qed

section \<open>Focus navigation\<close>

lemma index_cases:
  "0 \<le> (i::int) \<Longrightarrow> i < 5 \<Longrightarrow> i = 0 \<or> i = 1 \<or> i = 2 \<or> i = 3 \<or> i = 4"
  by arith

lemma handleTabNavigation_Advance:
  assumes len: "length (inputs m) = 5"
      and lo: "0 \<le> focusIndex m" and hi: "focusIndex m < 5"
  shows "handleTabNavigation m = Inr (Advance m, Blink)"
proof -
  have r: "inRange (focusIndex m) (inputs m)"
    using len lo hi by (simp add: inRange_def)
  have ne: "nat ((focusIndex m + 1) mod 5) \<noteq> nat (focusIndex m)"
    using index_cases [OF lo hi] by auto
  show ?thesis
    using r ne len by (simp add: handleTabNavigation_def Let_def Advance_def moveFocus_def)
qed

lemma handleShiftTabNavigation_Retreat:
  assumes len: "length (inputs m) = 5"
      and lo: "0 \<le> focusIndex m" and hi: "focusIndex m < 5"
  shows "handleShiftTabNavigation m = Inr (Retreat m, Blink)"
  using index_cases [OF lo hi] len
  by (elim disjE)
     (auto simp add: handleShiftTabNavigation_def Let_def Retreat_def moveFocus_def inRange_def)

lemma moveFocus_focus:
  assumes len: "length (inputs m) = 5"
      and lo: "0 \<le> focusIndex m" and hi: "focusIndex m < 5"
      and j: "0 \<le> j" "j < 5" "j \<noteq> focusIndex m"
  shows "focusIndex (moveFocus j m) = j \<and>
         \<not> Focused (inputs (moveFocus j m) ! nat (focusIndex m)) \<and>
         Focused (inputs (moveFocus j m) ! nat j)"
  using assms by (simp add: moveFocus_def Focus_def Blur_def nat_eq_iff)

text \<open>
  Claim C9.  With five inputs and a focus index \<open>i\<close> in \<open>{0,..,4}\<close>, the keys tab,
  space and enter run \<open>handleTabNavigation\<close>, which moves the focus to \<open>(i + 1) mod 5\<close>,
  and shift+tab runs \<open>handleShiftTabNavigation\<close>, which moves it to
  \<open>(i - 1 + 5) mod 5\<close>; in both the input that had the focus is blurred and the new
  one is focused.  From index 4 the first gives 0, from index 0 the second gives 4.
\<close>

theorem focus_navigation_wraps:
  assumes len: "length (inputs m) = 5"
      and lo: "0 \<le> focusIndex m" and hi: "focusIndex m < 5"
  shows "handleTabNavigation m = Inr (Advance m, Blink) \<and>
         handleKeyMessage env ''tab'' m = Inr (Some (Advance m, Some Blink)) \<and>
         handleKeyMessage env '' '' m = Inr (Some (Advance m, Some Blink)) \<and>
         handleKeyMessage env ''enter'' m = Inr (Some (Advance m, Some Blink)) \<and>
         focusIndex (Advance m) = (focusIndex m + 1) mod 5 \<and>
         \<not> Focused (inputs (Advance m) ! nat (focusIndex m)) \<and>
         Focused (inputs (Advance m) ! nat ((focusIndex m + 1) mod 5)) \<and>
         handleShiftTabNavigation m = Inr (Retreat m, Blink) \<and>
         handleKeyMessage env ''shift+tab'' m = Inr (Some (Retreat m, Some Blink)) \<and>
         focusIndex (Retreat m) = (focusIndex m - 1 + 5) mod 5 \<and>
         \<not> Focused (inputs (Retreat m) ! nat (focusIndex m)) \<and>
         Focused (inputs (Retreat m) ! nat ((focusIndex m - 1 + 5) mod 5)) \<and>
         (focusIndex m = 4 \<longrightarrow> focusIndex (Advance m) = 0) \<and>
         (focusIndex m = 0 \<longrightarrow> focusIndex (Retreat m) = 4)"
proof -
  note tab = handleTabNavigation_Advance [OF assms]
  note shift = handleShiftTabNavigation_Retreat [OF assms]
  have k1: "handleKeyMessage env ''tab'' m = Inr (Some (Advance m, Some Blink))"
    using tab by (simp add: handleKeyMessage_def)
  have k2: "handleKeyMessage env '' '' m = Inr (Some (Advance m, Some Blink))"
    using tab by (simp add: handleKeyMessage_def)
  have k3: "handleKeyMessage env ''enter'' m = Inr (Some (Advance m, Some Blink))"
    using tab by (simp add: handleKeyMessage_def)
  have k4: "handleKeyMessage env ''shift+tab'' m = Inr (Some (Retreat m, Some Blink))"
    using shift by (simp add: handleKeyMessage_def)
  have a: "focusIndex (Advance m) = (focusIndex m + 1) mod 5 \<and>
         \<not> Focused (inputs (Advance m) ! nat (focusIndex m)) \<and>
         Focused (inputs (Advance m) ! nat ((focusIndex m + 1) mod 5))"
    unfolding Advance_def
    using index_cases [OF lo hi] by (intro moveFocus_focus [OF assms]) auto
  have b: "focusIndex (Retreat m) = (focusIndex m - 1 + 5) mod 5 \<and>
         \<not> Focused (inputs (Retreat m) ! nat (focusIndex m)) \<and>
         Focused (inputs (Retreat m) ! nat ((focusIndex m - 1 + 5) mod 5))"
    unfolding Retreat_def
    using index_cases [OF lo hi] by (intro moveFocus_focus [OF assms]) auto
  have c: "focusIndex m = 4 \<longrightarrow> focusIndex (Advance m) = 0"
    using a by simp
  have d: "focusIndex m = 0 \<longrightarrow> focusIndex (Retreat m) = 4"
    using b by simp
  from tab shift k1 k2 k3 k4 a b c d show ?thesis by blast
qed

theorem focus_navigation_wraps_witness:
  "length (inputs emptyDayModel) = 5 \<and> focusIndex emptyDayModel = 4 \<and>
   handleTabNavigation emptyDayModel = Inr (Advance emptyDayModel, Blink) \<and>
   handleKeyMessage exampleEnv ''enter'' emptyDayModel =
     Inr (Some (Advance emptyDayModel, Some Blink)) \<and>
   focusIndex (Advance emptyDayModel) = 0 \<and>
   Focused (inputs (Advance emptyDayModel) ! 0) \<and>
   length (inputs day32Model) = 5 \<and> focusIndex day32Model = 2 \<and>
   handleShiftTabNavigation day32Model = Inr (Retreat day32Model, Blink) \<and>
   focusIndex (Retreat day32Model) = 1 \<and>
   Focused (inputs (Retreat day32Model) ! 1) \<and>
   length (inputs settledModel) = 5 \<and> focusIndex settledModel = 0 \<and>
   focusIndex (Retreat settledModel) = 4"
proof -
  have l1: "length (inputs emptyDayModel) = 5" and f1: "focusIndex emptyDayModel = 4"
    by (simp_all add: emptyDayModel_def exampleModel_def)
  have l2: "length (inputs day32Model) = 5" and f2: "focusIndex day32Model = 2"
    by (simp_all add: day32Model_def exampleModel_def)
  have l3: "length (inputs settledModel) = 5" and f3: "focusIndex settledModel = 0"
    by (simp_all add: settledModel_def exampleModel_def)
  from focus_navigation_wraps [of emptyDayModel exampleEnv] l1 f1
  have a: "handleTabNavigation emptyDayModel = Inr (Advance emptyDayModel, Blink) \<and>
   handleKeyMessage exampleEnv ''enter'' emptyDayModel =
     Inr (Some (Advance emptyDayModel, Some Blink)) \<and>
   focusIndex (Advance emptyDayModel) = 0 \<and>
   Focused (inputs (Advance emptyDayModel) ! 0)"
    by simp
  from focus_navigation_wraps [of day32Model exampleEnv] l2 f2
  have b: "handleShiftTabNavigation day32Model = Inr (Retreat day32Model, Blink) \<and>
   focusIndex (Retreat day32Model) = 1 \<and>
   Focused (inputs (Retreat day32Model) ! 1)"
    by simp
  from focus_navigation_wraps [of settledModel exampleEnv] l3 f3
  have c: "focusIndex (Retreat settledModel) = 4"
    by simp
  from l1 f1 l2 f2 l3 f3 a b c show ?thesis by blast
qed

section \<open>Copying to the clipboard\<close>

lemma length_strings_Join:
  "length (strings_Join xs sep) = sum_list (map length xs) + (length xs - 1) * length sep"
  by (induction xs sep rule: strings_Join.induct) simp_all

lemma star_lengths:
  "sum_list (map length (map Value ts))
     \<le> sum_list (map length (map (\<lambda>t. if Value t = '''' then ''*'' else Value t) ts)) \<and>
   ((\<exists>t \<in> set ts. Value t = '''') \<longrightarrow>
      sum_list (map length (map Value ts))
        < sum_list (map length (map (\<lambda>t. if Value t = '''' then ''*'' else Value t) ts)))"
  by (induction ts) auto

lemma raw_join_differs:
  assumes "\<exists>t \<in> set (inputs m). Value t = ''''"
  shows "strings_Join (map Value (inputs m)) '' '' \<noteq> buildCronExpression m"
proof
  assume "strings_Join (map Value (inputs m)) '' '' = buildCronExpression m"
  then have "length (strings_Join (map Value (inputs m)) '' '')
      = length (strings_Join (map (\<lambda>t. if Value t = '''' then ''*'' else Value t) (inputs m)) '' '')"
    by (simp add: buildCronExpression_def Let_def)
  then have "sum_list (map length (map Value (inputs m)))
      = sum_list (map length (map (\<lambda>t. if Value t = '''' then ''*'' else Value t) (inputs m)))"
    unfolding length_strings_Join by simp
  with star_lengths [of "inputs m"] assms show False by simp
qed

text \<open>
  Claim C10.  \<open>handleCopyToClipboard\<close> hands the clipboard (when there is one) the
  five field texts joined by single spaces, with no \<open>*\<close> put in for an empty text.
  So whenever a field is empty the copied text differs from the synthesized
  expression; with five empty fields it is four spaces, not \<open>* * * * *\<close>.
\<close>

theorem clipboard_gets_raw_fields:
  "trace (fst (handleCopyToClipboard env m)) =
     trace m @ (if clipboardAvailable env
                then [CallClipboardWriteAll (strings_Join (map Value (inputs m)) '' '')] else []) \<and>
   ((\<exists>t \<in> set (inputs m). Value t = '''') \<longrightarrow>
      strings_Join (map Value (inputs m)) '' '' \<noteq> buildCronExpression m) \<and>
   strings_Join (map Value [t0\<lparr>Value := ''''\<rparr>, t1\<lparr>Value := ''''\<rparr>, t2\<lparr>Value := ''''\<rparr>,
       t3\<lparr>Value := ''''\<rparr>, t4\<lparr>Value := ''''\<rparr>]) '' '' = ''    '' \<and>
   buildCronExpression (m\<lparr>inputs := [t0\<lparr>Value := ''''\<rparr>, t1\<lparr>Value := ''''\<rparr>,
       t2\<lparr>Value := ''''\<rparr>, t3\<lparr>Value := ''''\<rparr>, t4\<lparr>Value := ''''\<rparr>]\<rparr>) = ''* * * * *''"
proof -
  have d: "buildCronExpression (m\<lparr>inputs := [t0\<lparr>Value := ''''\<rparr>, t1\<lparr>Value := ''''\<rparr>,
       t2\<lparr>Value := ''''\<rparr>, t3\<lparr>Value := ''''\<rparr>, t4\<lparr>Value := ''''\<rparr>]\<rparr>) = ''* * * * *''"
    by (simp add: buildCronExpression_def Let_def)
  have a: "trace (fst (handleCopyToClipboard env m)) =
     trace m @ (if clipboardAvailable env
                then [CallClipboardWriteAll (strings_Join (map Value (inputs m)) '' '')] else [])"
    by (simp add: handleCopyToClipboard_def Let_def)
  have c: "strings_Join (map Value [t0\<lparr>Value := ''''\<rparr>, t1\<lparr>Value := ''''\<rparr>, t2\<lparr>Value := ''''\<rparr>,
       t3\<lparr>Value := ''''\<rparr>, t4\<lparr>Value := ''''\<rparr>]) '' '' = ''    ''"
    by simp
  from a raw_join_differs c d show ?thesis by blast
qed

theorem clipboard_gets_raw_fields_witness:
  "Value (inputs emptyDayModel ! 2) = '''' \<and>
   inputs emptyDayModel ! 2 \<in> set (inputs emptyDayModel) \<and>
   strings_Join (map Value (inputs emptyDayModel)) '' '' = ''20 4   *'' \<and>
   buildCronExpression emptyDayModel = ''20 4 * * *'' \<and>
   strings_Join (map Value (inputs emptyDayModel)) '' '' \<noteq> buildCronExpression emptyDayModel \<and>
   trace (fst (handleCopyToClipboard exampleEnv emptyDayModel)) =
     [CallClipboardWriteAll ''20 4   *'']"
proof -
  have e: "Value (inputs emptyDayModel ! 2) = ''''"
    by (simp add: emptyDayModel_def exampleModel_def upt_rec)
  have s: "inputs emptyDayModel ! 2 \<in> set (inputs emptyDayModel)"
    by (rule nth_mem) (simp add: emptyDayModel_def exampleModel_def)
  have j: "strings_Join (map Value (inputs emptyDayModel)) '' '' = ''20 4   *''"
    by (simp add: emptyDayModel_def exampleModel_def upt_rec)
  have b: "buildCronExpression emptyDayModel = ''20 4 * * *''"
    by (simp add: emptyDayModel_def updater_defs)
  have t: "trace emptyDayModel = []" and a: "clipboardAvailable exampleEnv"
    by (simp_all add: emptyDayModel_def exampleModel_def exampleEnv_def)
  have x: "\<exists>t \<in> set (inputs emptyDayModel). Value t = ''''"
    using e s by blast
  from clipboard_gets_raw_fields [of exampleEnv emptyDayModel] x
  have "strings_Join (map Value (inputs emptyDayModel)) '' '' \<noteq> buildCronExpression emptyDayModel"
    by blast
  moreover
  from clipboard_gets_raw_fields [of exampleEnv emptyDayModel] t a j
  have "trace (fst (handleCopyToClipboard exampleEnv emptyDayModel)) =
     [CallClipboardWriteAll ''20 4   *'']"
    by simp
  ultimately show ?thesis using e s j b by blast
qed

end
